theory Spec2Isabelle
  imports Main "HOL-Library.Word"
begin

section \<open>The streaming pipeline of the MicRecorder component\<close>

text \<open>
  The component keeps its pipeline state in React refs and state hooks and changes it
  from event handlers that each run to completion: the recorder's
  \<^verbatim>\<open>ondataavailable\<close>, \<^verbatim>\<open>onstart\<close>, \<^verbatim>\<open>onerror\<close> and \<^verbatim>\<open>onstop\<close>, the two halves of the
  asynchronous \<^verbatim>\<open>sendChunkToBackend\<close> (up to the \<^verbatim>\<open>fetch\<close>, and from the reply through the
  \<^verbatim>\<open>finally\<close> block), the callback of the 100 ms \<^verbatim>\<open>setTimeout\<close>, and the two halves of
  \<^verbatim>\<open>startNewSession\<close>. Each handler is a function from state to state; a run of the
  component is a list of events folded over the initial state. Between the \<^verbatim>\<open>fetch\<close> and
  the \<^verbatim>\<open>finally\<close> block \<^verbatim>\<open>sendChunkToBackend\<close> awaits twice (the reply, then its body) and
  touches no shared variable in between, so the two continuations are one event here.
  Left out: \<^verbatim>\<open>testConnection\<close>, the body of \<^verbatim>\<open>handleMicClick\<close> around the handlers it
  installs (microphone access, the choice of MIME type, \<^verbatim>\<open>isRecording\<close>), rendering, and
  the console output other than the milestone line.
\<close>

subsection \<open>Data\<close>

text \<open>
  A \<^verbatim>\<open>Blob\<close> is its bytes, \<^verbatim>\<open>blob.size\<close> is the length, and
  \<^verbatim>\<open>new Blob([b1, ..., bn])\<close> is the concatenation. A JavaScript string is its sequence
  of UTF-16 code units.
\<close>

type_synonym byte = "8 word"
type_synonym blob = "byte list"
type_synonym jsstring = "16 word list"

definition str :: "string \<Rightarrow> jsstring" where
  "str cs = map of_char cs"

text \<open>
  The body of a reply of \<^verbatim>\<open>/transcribe\<close>. \<open>Reply t m\<close> is a reply with status ok whose JSON
  has \<^verbatim>\<open>text\<close> equal to the string \<open>t\<close> (\<open>None\<close> when the field is missing or null) and a
  \<^verbatim>\<open>milestone\<close> field that is truthy exactly when \<open>m\<close> holds. \<open>Failure\<close> is every way into
  the \<^verbatim>\<open>catch\<close> block: a rejected fetch, a status that is not ok, a body that is not JSON.
\<close>

datatype reply = Reply "jsstring option" bool | Failure

text \<open>What a call of an asynchronous function has done when control returns to the caller.\<close>

datatype 'a outcome = Returned 'a | Awaiting

text \<open>
  The first seven fields are the component's own variables. The others record what the
  component has done to its environment: \<open>inflight\<close> holds the calls of
  \<^verbatim>\<open>sendChunkToBackend\<close> suspended at their \<^verbatim>\<open>fetch\<close> (chunk number and payload, oldest
  first), \<open>sent\<close> is the log of every request made to \<^verbatim>\<open>/transcribe\<close>, \<open>timers\<close> counts the
  pending \<^verbatim>\<open>setTimeout\<close> callbacks of the \<^verbatim>\<open>finally\<close> block, \<open>startRequests\<close> counts the
  requests made to \<^verbatim>\<open>/start_session\<close>, \<open>startsPending\<close> those not yet answered, and
  \<open>milestones\<close> counts the executions of the milestone line.
\<close>

record state =
  transcript :: jsstring
  currentSession :: "jsstring option"
  chunkQueue :: "blob list"
  isProcessing :: bool
  sessionStarting :: bool
  chunkCounter :: nat
  audioChunks :: "blob list"
  inflight :: "(nat \<times> blob) list"
  sent :: "(nat \<times> blob) list"
  timers :: nat
  startRequests :: nat
  startsPending :: nat
  milestones :: nat

definition init :: state where
  "init = \<lparr> transcript = [], currentSession = None, chunkQueue = [], isProcessing = False,
            sessionStarting = False, chunkCounter = 0, audioChunks = [], inflight = [],
            sent = [], timers = 0, startRequests = 0, startsPending = 0, milestones = 0 \<rparr>"

subsection \<open>The transcript\<close>

text \<open>
  \<^verbatim>\<open>String.prototype.trim\<close> removes the code units of WhiteSpace and LineTerminator from
  both ends.
\<close>

definition isWhiteSpace :: "16 word \<Rightarrow> bool" where
  "isWhiteSpace c =
     (c \<in> set [0x09, 0x0A, 0x0B, 0x0C, 0x0D, 0x20, 0xA0, 0x1680, 0x2028, 0x2029,
                0x202F, 0x205F, 0x3000, 0xFEFF]
      \<or> (0x2000 \<le> c \<and> c \<le> 0x200A))"

definition trim :: "jsstring \<Rightarrow> jsstring" where
  "trim t = rev (dropWhile isWhiteSpace (rev (dropWhile isWhiteSpace t)))"

definition blank :: "jsstring \<Rightarrow> bool" where
  "blank t = list_all isWhiteSpace t"

text \<open>
  Lines 57 to 67: the test \<^verbatim>\<open>result.text && result.text.trim()\<close>, the updater given to
  \<^verbatim>\<open>setTranscript\<close>, and the milestone line.
\<close>

definition joinText :: "jsstring \<Rightarrow> jsstring \<Rightarrow> jsstring" where
  "joinText prev newText = (if prev \<noteq> [] then prev @ [0x20] @ newText else newText)"

definition applyResult :: "reply \<Rightarrow> state \<Rightarrow> state" where
  "applyResult r s =
     (case r of
        Failure \<Rightarrow> s
      | Reply None m \<Rightarrow> s
      | Reply (Some t) m \<Rightarrow>
          if t \<noteq> [] \<and> trim t \<noteq> []
          then s\<lparr> transcript := joinText (transcript s) (trim t),
                  milestones := milestones s + (if m then 1 else 0) \<rparr>
          else s)"

subsection \<open>Dispatch\<close>

text \<open>
  \<^verbatim>\<open>sendChunkToBackend\<close> up to its first \<^verbatim>\<open>await\<close>: the guard, the flag, the counter, the
  request.
\<close>

definition sendChunkToBackend :: "blob \<Rightarrow> state \<Rightarrow> state" where
  "sendChunkToBackend audioBlob s =
     (if isProcessing s then s
      else let chunkNum = chunkCounter s + 1
           in s\<lparr> isProcessing := True, chunkCounter := chunkNum,
                  inflight := inflight s @ [(chunkNum, audioBlob)],
                  sent := sent s @ [(chunkNum, audioBlob)] \<rparr>)"

text \<open>
  The rest of \<^verbatim>\<open>sendChunkToBackend\<close>, run when the reply of the oldest suspended call
  arrives: the \<^verbatim>\<open>try\<close> body or the \<^verbatim>\<open>catch\<close>, then the \<^verbatim>\<open>finally\<close> block, which clears the
  flag and sets the timer. Nothing happens when no call is suspended.
\<close>

definition transcribeDone :: "reply \<Rightarrow> state \<Rightarrow> state" where
  "transcribeDone r s =
     (case inflight s of
        [] \<Rightarrow> s
      | c # cs \<Rightarrow> (applyResult r s)\<lparr> isProcessing := False, inflight := cs,
                                      timers := timers s + 1 \<rparr>)"

text \<open>The callback of the timer (lines 73 to 78). Nothing happens when no timer is pending.\<close>

definition timerFired :: "state \<Rightarrow> state" where
  "timerFired s =
     (if timers s = 0 then s
      else let s1 = s\<lparr> timers := timers s - 1 \<rparr>
           in case chunkQueue s1 of
                [] \<Rightarrow> s1
              | nextChunk # q \<Rightarrow>
                  if \<not> isProcessing s1
                  then sendChunkToBackend nextChunk (s1\<lparr> chunkQueue := q \<rparr>)
                  else s1)"

subsection \<open>Accumulation and the recorder's handlers\<close>

definition createCompleteAudioFile :: "state \<Rightarrow> blob option" where
  "createCompleteAudioFile s =
     (if audioChunks s = [] then None else Some (concat (audioChunks s)))"

text \<open>
  \<^verbatim>\<open>ondataavailable\<close> (lines 182 to 202). \<^verbatim>\<open>event.data\<close> is a Blob, so the test is the one
  on its size. The file built after the push is never null and the queue is never empty
  after the push; the branches for those cases are kept as the source has them
  (\<^verbatim>\<open>if (completeFile)\<close>) or as the identity.
\<close>

definition ondataavailable :: "blob \<Rightarrow> state \<Rightarrow> state" where
  "ondataavailable data s =
     (if 1000 < length data
      then let s1 = s\<lparr> audioChunks := audioChunks s @ [data] \<rparr>
           in case createCompleteAudioFile s1 of
                None \<Rightarrow> s1
              | Some completeFile \<Rightarrow>
                  let s2 = s1\<lparr> chunkQueue := chunkQueue s1 @ [completeFile] \<rparr>
                  in if \<not> isProcessing s2
                     then (case chunkQueue s2 of
                             [] \<Rightarrow> s2
                           | chunk # q \<Rightarrow> sendChunkToBackend chunk (s2\<lparr> chunkQueue := q \<rparr>))
                     else s2
      else s)"

definition onstart :: "state \<Rightarrow> state" where
  "onstart s = s\<lparr> transcript := str ''Listening...'', audioChunks := [] \<rparr>"

definition onerror :: "state \<Rightarrow> state" where
  "onerror s = s\<lparr> transcript := str ''Recording error occurred'' \<rparr>"

definition onstop :: "state \<Rightarrow> state" where
  "onstop s =
     (case createCompleteAudioFile s of
        None \<Rightarrow> s
      | Some finalFile \<Rightarrow>
          if 1000 < length finalFile then sendChunkToBackend finalFile s else s)"

subsection \<open>Starting a session\<close>

text \<open>
  \<^verbatim>\<open>startNewSession\<close> up to its \<^verbatim>\<open>await\<close>: under the guard it returns the current session
  at once, otherwise it sets the guard and makes the request. The second half runs when
  the reply arrives: \<open>Some sid\<close> is a reply with status ok carrying \<^verbatim>\<open>session_id\<close>, \<open>None\<close>
  is every way into the \<^verbatim>\<open>catch\<close> block.
\<close>

definition startNewSession :: "state \<Rightarrow> jsstring option outcome \<times> state" where
  "startNewSession s =
     (if sessionStarting s then (Returned (currentSession s), s)
      else (Awaiting, s\<lparr> sessionStarting := True,
                          startRequests := startRequests s + 1,
                          startsPending := startsPending s + 1 \<rparr>))"

definition startNewSessionDone :: "jsstring option \<Rightarrow> state \<Rightarrow> jsstring option \<times> state" where
  "startNewSessionDone r s =
     (case r of
        Some sid \<Rightarrow>
          (Some sid, s\<lparr> currentSession := Some sid, transcript := [], chunkCounter := 0,
                         audioChunks := [], sessionStarting := False \<rparr>)
      | None \<Rightarrow> (None, s\<lparr> sessionStarting := False \<rparr>))"

subsection \<open>Runs\<close>

datatype event =
    DataAvailable blob
  | RecorderStart
  | RecorderError
  | RecorderStop
  | TranscribeDone reply
  | TimerFired
  | StartSession
  | StartSessionDone "jsstring option"

fun step :: "state \<Rightarrow> event \<Rightarrow> state" where
  "step s (DataAvailable b) = ondataavailable b s"
| "step s RecorderStart = onstart s"
| "step s RecorderError = onerror s"
| "step s RecorderStop = onstop s"
| "step s (TranscribeDone r) = transcribeDone r s"
| "step s TimerFired = timerFired s"
| "step s StartSession = snd (startNewSession s)"
| "step s (StartSessionDone r) =
     (if startsPending s = 0 then s
      else snd (startNewSessionDone r (s\<lparr> startsPending := startsPending s - 1 \<rparr>)))"

definition run :: "state \<Rightarrow> event list \<Rightarrow> state" where
  "run s es = foldl step s es"

text \<open>The payloads of the requests made so far, in the order they were made.\<close>

definition payloads :: "state \<Rightarrow> blob list" where
  "payloads s = map snd (sent s)"

text \<open>An event that leaves the accumulated segments of the session in place.\<close>

fun keepsAudio :: "event \<Rightarrow> bool" where
  "keepsAudio RecorderStart = False"
| "keepsAudio (StartSessionDone (Some sid)) = False"
| "keepsAudio e = True"

text \<open>An event that adds a segment to the accumulation.\<close>

fun addsAudio :: "event \<Rightarrow> bool" where
  "addsAudio (DataAvailable b) = (1000 < length b)"
| "addsAudio e = False"

text \<open>
  What a reply does to the transcript, and whether it reaches the milestone line, read off
  \<open>applyResult\<close> (lemma \<open>applyResult_alt\<close> below).
\<close>

fun replyText :: "reply \<Rightarrow> jsstring \<Rightarrow> jsstring" where
  "replyText (Reply (Some t) m) prev = (if blank t then prev else joinText prev (trim t))"
| "replyText r prev = prev"

fun flagged :: "reply \<Rightarrow> bool" where
  "flagged (Reply (Some t) m) = (m \<and> \<not> blank t)"
| "flagged r = False"

text \<open>The flag \<^verbatim>\<open>isProcessing\<close> is set exactly when one call is suspended at its fetch.\<close>

definition singleFlight :: "state \<Rightarrow> bool" where
  "singleFlight s = (if isProcessing s then length (inflight s) = 1 else inflight s = [])"

text \<open>
  The payloads that have been sent or are waiting in the queue, and the property that the
  complete file of the accumulated segments is one of them.
\<close>

definition dispatched :: "state \<Rightarrow> blob set" where
  "dispatched s = set (payloads s) \<union> set (chunkQueue s)"

definition accumulatedDispatched :: "state \<Rightarrow> bool" where
  "accumulatedDispatched s =
     (audioChunks s = [] \<or> concat (audioChunks s) \<in> dispatched s)"

text \<open>The events that follow from requests already made: a reply, a timer.\<close>

fun replyOrTimer :: "event \<Rightarrow> bool" where
  "replyOrTimer (TranscribeDone r) = True"
| "replyOrTimer TimerFired = True"
| "replyOrTimer e = False"

text \<open>Values for the examples: a segment of a given size, and a text of 5000 letters.\<close>

definition segment :: "nat \<Rightarrow> byte \<Rightarrow> blob" where
  "segment n x = replicate n x"

definition longText :: jsstring where
  "longText = replicate 5000 0x61"

section \<open>Basic facts\<close>

lemma length_segment: "length (segment n x) = n"
  by (simp add: segment_def)

lemma run_Nil: "run s [] = s"
  by (simp add: run_def)

lemma run_Cons: "run s (e # es) = run (step s e) es"
  by (simp add: run_def)

lemma run_append: "run s (es @ fs) = run (run s es) fs"
  by (simp add: run_def)

subsection \<open>Trimming\<close>

lemma all_dropWhile: "(\<forall>x\<in>set (dropWhile P t). P x) \<longleftrightarrow> (\<forall>x\<in>set t. P x)"
  by (induction t) auto

lemma trim_eq_Nil: "trim t = [] \<longleftrightarrow> blank t"
  by (simp add: trim_def blank_def list_all_iff all_dropWhile)

lemma blank_Nil: "blank []"
  by (simp add: blank_def)

lemma trim_id:
  assumes "t \<noteq> []" "\<not> isWhiteSpace (hd t)" "\<not> isWhiteSpace (last t)"
  shows "trim t = t"
proof -
  have front: "dropWhile isWhiteSpace t = t"
    using assms(1,2) by (simp add: dropWhile_eq_self_iff)
  have "dropWhile isWhiteSpace (rev t) = rev t"
    using assms(1,3) by (simp add: dropWhile_eq_self_iff hd_rev)
  with front show ?thesis by (simp add: trim_def)
qed

text \<open>What \<open>trim\<close> removes is white space, and what it leaves has none at either end.\<close>

lemma trim_decompose:
  "\<exists>pre post. t = pre @ trim t @ post \<and> blank pre \<and> blank post"
proof -
  let ?u = "dropWhile isWhiteSpace t"
  have "t = takeWhile isWhiteSpace t @ ?u" by simp
  moreover have "rev ?u = takeWhile isWhiteSpace (rev ?u) @ dropWhile isWhiteSpace (rev ?u)"
    by simp
  then have "?u = trim t @ rev (takeWhile isWhiteSpace (rev ?u))"
    by (metis rev_append rev_rev_ident trim_def)
  ultimately have "t = takeWhile isWhiteSpace t @ trim t @ rev (takeWhile isWhiteSpace (rev ?u))"
    by simp
  moreover have "blank (takeWhile isWhiteSpace t)"
    by (auto simp: blank_def list_all_iff dest: set_takeWhileD)
  moreover have "blank (rev (takeWhile isWhiteSpace (rev ?u)))"
    by (auto simp: blank_def list_all_iff dest: set_takeWhileD)
  ultimately show ?thesis by blast
qed

lemma trim_ends:
  assumes "trim t \<noteq> []"
  shows "\<not> isWhiteSpace (hd (trim t))" and "\<not> isWhiteSpace (last (trim t))"
proof -
  let ?u = "dropWhile isWhiteSpace t"
  let ?v = "dropWhile isWhiteSpace (rev ?u)"
  have v: "?v \<noteq> []" using assms by (simp add: trim_def)
  have u: "?u \<noteq> []"
  proof
    assume "?u = []"
    then have "?v = []" by (simp add: all_dropWhile)
    with v show False by contradiction
  qed
  have "last (trim t) = hd ?v" by (simp add: trim_def last_rev)
  with v show "\<not> isWhiteSpace (last (trim t))" by (simp add: hd_dropWhile)
  have "rev ?u = takeWhile isWhiteSpace (rev ?u) @ ?v" by simp
  then have "last (rev ?u) = last ?v" using v by (metis last_appendR)
  then have "hd ?u = last ?v" by (simp add: last_rev)
  moreover have "hd (trim t) = last ?v" by (simp add: trim_def hd_rev)
  moreover have "\<not> isWhiteSpace (hd ?u)" using u by (rule hd_dropWhile)
  ultimately show "\<not> isWhiteSpace (hd (trim t))" by simp
qed

lemma longText_facts: "longText \<noteq> []" "\<not> blank longText" "trim longText = longText"
proof -
  show ne: "longText \<noteq> []" by (simp add: longText_def)
  have nw: "\<not> isWhiteSpace 0x61" by (simp add: isWhiteSpace_def)
  then show "\<not> blank longText" by (simp add: blank_def longText_def list_all_iff)
  show "trim longText = longText"
    using ne nw by (intro trim_id) (simp_all add: longText_def)
qed

subsection \<open>The handlers field by field\<close>

lemma applyResult_alt:
  "applyResult r s = s\<lparr> transcript := replyText r (transcript s),
                         milestones := milestones s + (if flagged r then 1 else 0) \<rparr>"
proof (cases r)
  case (Reply t m)
  then show ?thesis
    by (cases t) (simp_all add: applyResult_def trim_eq_Nil blank_Nil)
qed (simp add: applyResult_def)

lemmas handlers = ondataavailable_def createCompleteAudioFile_def sendChunkToBackend_def
  transcribeDone_def timerFired_def onstop_def applyResult_alt Let_def

lemmas run_simps = run_Cons run_Nil init_def handlers payloads_def length_segment

lemma audioChunks_send: "audioChunks (sendChunkToBackend b s) = audioChunks s"
  by (simp add: sendChunkToBackend_def Let_def)

lemma audioChunks_ondataavailable:
  "audioChunks (ondataavailable b s)
     = (if 1000 < length b then audioChunks s @ [b] else audioChunks s)"
  by (simp add: ondataavailable_def createCompleteAudioFile_def Let_def audioChunks_send
      split: list.splits)

lemma audioChunks_transcribeDone: "audioChunks (transcribeDone r s) = audioChunks s"
  by (simp add: transcribeDone_def applyResult_alt split: list.splits)

lemma audioChunks_timerFired: "audioChunks (timerFired s) = audioChunks s"
  by (simp add: timerFired_def Let_def audioChunks_send split: list.splits)

lemma audioChunks_onstop: "audioChunks (onstop s) = audioChunks s"
  by (simp add: onstop_def audioChunks_send split: option.splits)

lemma audioChunks_startNewSessionDone:
  "keepsAudio (StartSessionDone r) \<Longrightarrow>
   audioChunks (snd (startNewSessionDone r s)) = audioChunks s"
  by (cases r) (simp_all add: startNewSessionDone_def)

lemmas audioChunks_handlers = audioChunks_ondataavailable audioChunks_transcribeDone
  audioChunks_timerFired audioChunks_onstop audioChunks_startNewSessionDone
  onerror_def startNewSession_def

lemma audioChunks_idle_step:
  "keepsAudio e \<Longrightarrow> \<not> addsAudio e \<Longrightarrow> audioChunks (step s e) = audioChunks s"
  by (cases e) (simp_all add: audioChunks_handlers)

lemma audioChunks_grow_step:
  "keepsAudio e \<Longrightarrow> \<exists>more. audioChunks (step s e) = audioChunks s @ more"
  by (cases e) (simp_all add: audioChunks_handlers)

lemma audioChunks_idle_run:
  "list_all (\<lambda>e. keepsAudio e \<and> \<not> addsAudio e) es \<Longrightarrow>
   audioChunks (run s es) = audioChunks s"
  by (induction es arbitrary: s) (simp_all add: run_Nil run_Cons audioChunks_idle_step)

lemma audioChunks_grow_run:
  "list_all keepsAudio es \<Longrightarrow> \<exists>more. audioChunks (run s es) = audioChunks s @ more"
proof (induction es arbitrary: s)
  case Nil
  then show ?case by (simp add: run_Nil)
next
  case (Cons e es)
  from Cons.prems obtain m1 where m1: "audioChunks (step s e) = audioChunks s @ m1"
    using audioChunks_grow_step [of e s] by auto
  from Cons.prems Cons.IH [of "step s e"] obtain m2
    where "audioChunks (run (step s e) es) = audioChunks (step s e) @ m2" by auto
  with m1 show ?case by (simp add: run_Cons)
qed

subsection \<open>One request at a time\<close>

lemma singleFlight_send: "singleFlight s \<Longrightarrow> singleFlight (sendChunkToBackend b s)"
  by (simp add: singleFlight_def sendChunkToBackend_def Let_def)

lemma singleFlight_update:
  "singleFlight (s\<lparr>chunkQueue := q\<rparr>) = singleFlight s"
  "singleFlight (s\<lparr>audioChunks := a\<rparr>) = singleFlight s"
  "singleFlight (s\<lparr>timers := n\<rparr>) = singleFlight s"
  "singleFlight (s\<lparr>transcript := t\<rparr>) = singleFlight s"
  "singleFlight (s\<lparr>startsPending := n\<rparr>) = singleFlight s"
  by (simp_all add: singleFlight_def)

lemma singleFlight_step: "singleFlight s \<Longrightarrow> singleFlight (step s e)"
proof (cases e)
  case (DataAvailable b)
  then show "singleFlight s \<Longrightarrow> ?thesis"
    by (auto simp: ondataavailable_def createCompleteAudioFile_def Let_def singleFlight_update
        intro!: singleFlight_send split: list.splits)
next
  case (TranscribeDone r)
  then show "singleFlight s \<Longrightarrow> ?thesis"
    by (auto simp: transcribeDone_def applyResult_alt singleFlight_def
        split: list.splits if_splits)
next
  case TimerFired
  then show "singleFlight s \<Longrightarrow> ?thesis"
    by (auto simp: timerFired_def Let_def singleFlight_update
        intro!: singleFlight_send split: list.splits)
next
  case RecorderStop
  then show "singleFlight s \<Longrightarrow> ?thesis"
    by (auto simp: onstop_def intro!: singleFlight_send split: option.splits)
next
  case (StartSessionDone r)
  then show "singleFlight s \<Longrightarrow> ?thesis"
    by (auto simp: startNewSessionDone_def singleFlight_def split: option.splits)
qed (auto simp: onstart_def onerror_def startNewSession_def singleFlight_def)

lemma singleFlight_run: "singleFlight s \<Longrightarrow> singleFlight (run s es)"
  by (induction es arbitrary: s) (simp_all add: run_Nil run_Cons singleFlight_step)

text \<open>
  Whatever the events, at most one request to \<^verbatim>\<open>/transcribe\<close> is awaiting its reply, and
  the flag says whether one is.
\<close>

lemma at_most_one_in_flight:
  "length (inflight (run init es)) \<le> 1
   \<and> isProcessing (run init es) = (inflight (run init es) \<noteq> [])"
proof -
  have "singleFlight init" by (simp add: singleFlight_def init_def)
  then have "singleFlight (run init es)" by (rule singleFlight_run)
  then show ?thesis by (auto simp: singleFlight_def split: if_splits)
qed

subsection \<open>Nothing accumulated is lost\<close>

lemma dispatched_send:
  "dispatched (sendChunkToBackend b s) = (if isProcessing s then dispatched s else insert b (dispatched s))"
  by (simp add: dispatched_def payloads_def sendChunkToBackend_def Let_def)

lemma dispatched_update:
  "dispatched (s\<lparr>chunkQueue := q\<rparr>) = set (payloads s) \<union> set q"
  "dispatched (s\<lparr>audioChunks := a\<rparr>) = dispatched s"
  "dispatched (s\<lparr>timers := n\<rparr>) = dispatched s"
  "dispatched (s\<lparr>transcript := t\<rparr>) = dispatched s"
  "dispatched (s\<lparr>startsPending := n\<rparr>) = dispatched s"
  by (simp_all add: dispatched_def payloads_def)

lemma dispatched_ondataavailable:
  "dispatched (ondataavailable b s)
     = (if 1000 < length b then insert (concat (audioChunks s) @ b) (dispatched s)
        else dispatched s)"
proof (cases "1000 < length b")
  case True
  then have "dispatched (ondataavailable b s)
      = (if isProcessing s then set (payloads s) \<union> set (chunkQueue s @ [concat (audioChunks s) @ b])
         else (case chunkQueue s @ [concat (audioChunks s) @ b] of
                 [] \<Rightarrow> dispatched s
               | c # q \<Rightarrow> insert c (set (payloads s) \<union> set q)))"
    by (simp add: ondataavailable_def createCompleteAudioFile_def Let_def dispatched_send
        dispatched_update payloads_def split: list.splits)
  also have "\<dots> = insert (concat (audioChunks s) @ b) (dispatched s)"
    by (cases "chunkQueue s") (auto simp: dispatched_def)
  finally show ?thesis using True by simp
next
  case False
  then show ?thesis by (simp add: ondataavailable_def)
qed

lemma dispatched_transcribeDone: "dispatched (transcribeDone r s) = dispatched s"
  by (simp add: transcribeDone_def applyResult_alt dispatched_def payloads_def split: list.splits)

lemma dispatched_timerFired: "dispatched (timerFired s) = dispatched s"
proof -
  have "dispatched (timerFired s)
      = (if timers s = 0 \<or> isProcessing s then dispatched s
         else (case chunkQueue s of
                 [] \<Rightarrow> dispatched s
               | c # q \<Rightarrow> insert c (set (payloads s) \<union> set q)))"
    by (simp add: timerFired_def Let_def dispatched_send dispatched_update payloads_def
        split: list.splits)
  also have "\<dots> = dispatched s"
    by (cases "chunkQueue s") (auto simp: dispatched_def)
  finally show ?thesis .
qed

lemma dispatched_onstop: "dispatched s \<subseteq> dispatched (onstop s)"
  by (auto simp: onstop_def dispatched_send split: option.splits)

lemma accumulatedDispatched_step:
  "accumulatedDispatched s \<Longrightarrow> accumulatedDispatched (step s e)"
proof (cases e)
  case (DataAvailable b)
  then show "accumulatedDispatched s \<Longrightarrow> ?thesis"
    by (auto simp: accumulatedDispatched_def audioChunks_ondataavailable
        dispatched_ondataavailable)
next
  case RecorderStop
  then show "accumulatedDispatched s \<Longrightarrow> ?thesis"
    using dispatched_onstop [of s]
    by (auto simp: accumulatedDispatched_def audioChunks_onstop)
next
  case (TranscribeDone r)
  then show "accumulatedDispatched s \<Longrightarrow> ?thesis"
    by (simp add: accumulatedDispatched_def audioChunks_transcribeDone
        dispatched_transcribeDone)
next
  case TimerFired
  then show "accumulatedDispatched s \<Longrightarrow> ?thesis"
    by (simp add: accumulatedDispatched_def audioChunks_timerFired dispatched_timerFired)
next
  case (StartSessionDone r)
  then show "accumulatedDispatched s \<Longrightarrow> ?thesis"
    by (cases r) (auto simp: accumulatedDispatched_def startNewSessionDone_def
        dispatched_def payloads_def)
qed (auto simp: accumulatedDispatched_def onstart_def onerror_def startNewSession_def
      dispatched_def payloads_def)

lemma accumulatedDispatched_run:
  "accumulatedDispatched s \<Longrightarrow> accumulatedDispatched (run s es)"
  by (induction es arbitrary: s) (simp_all add: run_Nil run_Cons accumulatedDispatched_step)

text \<open>
  In every run the complete file of the accumulated segments has been sent or is waiting
  in the queue.
\<close>

lemma accumulated_file_dispatched:
  assumes "createCompleteAudioFile (run init es) = Some f"
  shows "f \<in> set (payloads (run init es)) \<or> f \<in> set (chunkQueue (run init es))"
proof -
  have "accumulatedDispatched init"
    by (simp add: accumulatedDispatched_def init_def)
  then have "accumulatedDispatched (run init es)" by (rule accumulatedDispatched_run)
  with assms show ?thesis
    by (auto simp: accumulatedDispatched_def dispatched_def createCompleteAudioFile_def
        split: if_splits)
qed

text \<open>
  With no request in flight and no timer pending, replies and timers change nothing.
\<close>

lemma quiescent_step:
  "inflight s = [] \<Longrightarrow> timers s = 0 \<Longrightarrow> replyOrTimer e \<Longrightarrow> step s e = s"
  by (cases e) (simp_all add: transcribeDone_def timerFired_def)

lemma quiescent_run:
  "inflight s = [] \<Longrightarrow> timers s = 0 \<Longrightarrow> list_all replyOrTimer es \<Longrightarrow> run s es = s"
  by (induction es) (simp_all add: run_Nil run_Cons quiescent_step)

section \<open>The dispatch queue\<close>

text \<open>
  Claim C1, as the code has it. A payload produced while a request is in flight is put
  behind the payloads already waiting in \<^verbatim>\<open>chunkQueue\<close>: nothing waiting is replaced or
  dropped, the queue grows by one, and no request is made. In particular, when three
  segments \<open>a\<close>, \<open>b\<close>, \<open>c\<close> arrive while the request for the first payload is in flight, the
  payloads \<open>a @ b\<close> and \<open>a @ b @ c\<close> both wait, and as replies arrive and the timers fire
  three requests are made: \<open>a\<close>, then \<open>a @ b\<close>, then \<open>a @ b @ c\<close>.
\<close>

theorem chunkQueue_is_fifo:
  assumes "isProcessing s" and "1000 < length d"
    and "1000 < length a" and "1000 < length b" and "1000 < length c"
  shows "chunkQueue (ondataavailable d s) = chunkQueue s @ [concat (audioChunks s) @ d]
    \<and> length (chunkQueue (ondataavailable d s)) = length (chunkQueue s) + 1
    \<and> payloads (ondataavailable d s) = payloads s
    \<and> chunkQueue (run init [DataAvailable a, DataAvailable b, DataAvailable c])
        = [a @ b, a @ b @ c]
    \<and> payloads (run init [DataAvailable a, DataAvailable b, DataAvailable c,
          TranscribeDone r1, TimerFired, TranscribeDone r2, TimerFired,
          TranscribeDone r3, TimerFired]) = [a, a @ b, a @ b @ c]"
  using assms by (simp add: run_simps)

text \<open>The same at three segments of 1500 bytes, and at a fourth of 1200 bytes.\<close>

theorem chunkQueue_is_fifo_witness:
  "isProcessing (run init [DataAvailable (segment 1500 1)])
   \<and> 1000 < length (segment 1200 2)
   \<and> 1000 < length (segment 1500 1) \<and> 1000 < length (segment 1500 2)
   \<and> 1000 < length (segment 1500 3)
   \<and> chunkQueue (ondataavailable (segment 1200 2) (run init [DataAvailable (segment 1500 1)]))
       = [segment 1500 1 @ segment 1200 2]
   \<and> payloads (run init [DataAvailable (segment 1500 1), DataAvailable (segment 1500 2),
          DataAvailable (segment 1500 3),
          TranscribeDone Failure, TimerFired, TranscribeDone Failure, TimerFired,
          TranscribeDone Failure, TimerFired])
       = [segment 1500 1, segment 1500 1 @ segment 1500 2,
          segment 1500 1 @ segment 1500 2 @ segment 1500 3]"
  using chunkQueue_is_fifo [of "run init [DataAvailable (segment 1500 1)]" "segment 1200 2"
      "segment 1500 1" "segment 1500 2" "segment 1500 3" Failure Failure Failure]
  by (simp add: run_simps)

text \<open>
  Claim C1 as first stated (a newer payload replaces the waiting one, the queue never
  holds more than one, and of three payloads only the first and the third are sent) fails:
  with three segments of 1500 bytes the queue holds two payloads, and the second payload
  is sent between the first and the third.
\<close>

theorem chunkQueue_not_coalesced:
  "\<not> length (chunkQueue (run init
        [DataAvailable (segment 1500 1), DataAvailable (segment 1500 2),
         DataAvailable (segment 1500 3)])) \<le> 1
   \<and> payloads (run init
        [DataAvailable (segment 1500 1), DataAvailable (segment 1500 2),
         DataAvailable (segment 1500 3),
         TranscribeDone (Reply (Some (str ''one'')) False), TimerFired,
         TranscribeDone (Reply (Some (str ''two'')) False), TimerFired,
         TranscribeDone (Reply (Some (str ''three'')) False), TimerFired])
     = [segment 1500 1, segment 1500 1 @ segment 1500 2,
        segment 1500 1 @ segment 1500 2 @ segment 1500 3]"
  by (simp add: run_simps)

text \<open>
  Claim C2: at most one request is in flight at any instant, and the payloads that are sent
  are sent in the order they arrived. The first half holds for every run (lemma
  \<open>at_most_one_in_flight\<close>). The second half fails when the recorder stops between a reply
  and the timer that reply has set: \<^verbatim>\<open>onstop\<close> hands its file to \<^verbatim>\<open>sendChunkToBackend\<close>
  without passing through \<^verbatim>\<open>chunkQueue\<close>, where \<^verbatim>\<open>ondataavailable\<close> pushes and then shifts.
  Below, three segments of 1500 bytes arrive, the reply to the first request arrives, the
  recorder stops (its last segment of 500 bytes is skipped): the final file, which arrived
  last, is sent while the second and third payloads are still waiting, and they go out
  after it.
\<close>

theorem final_file_overtakes_queue:
  "payloads (run init
      [DataAvailable (segment 1500 1), DataAvailable (segment 1500 2),
       DataAvailable (segment 1500 3), TranscribeDone (Reply (Some (str ''one'')) False),
       DataAvailable (segment 500 4), RecorderStop])
     = [segment 1500 1, segment 1500 1 @ segment 1500 2 @ segment 1500 3]
   \<and> chunkQueue (run init
      [DataAvailable (segment 1500 1), DataAvailable (segment 1500 2),
       DataAvailable (segment 1500 3), TranscribeDone (Reply (Some (str ''one'')) False),
       DataAvailable (segment 500 4), RecorderStop])
     = [segment 1500 1 @ segment 1500 2, segment 1500 1 @ segment 1500 2 @ segment 1500 3]
   \<and> payloads (run init
      [DataAvailable (segment 1500 1), DataAvailable (segment 1500 2),
       DataAvailable (segment 1500 3), TranscribeDone (Reply (Some (str ''one'')) False),
       DataAvailable (segment 500 4), RecorderStop, TimerFired,
       TranscribeDone (Reply (Some (str ''two'')) False), TimerFired,
       TranscribeDone (Reply (Some (str ''three'')) False), TimerFired])
     = [segment 1500 1, segment 1500 1 @ segment 1500 2 @ segment 1500 3,
        segment 1500 1 @ segment 1500 2, segment 1500 1 @ segment 1500 2 @ segment 1500 3]"
  by (simp add: run_simps)

text \<open>
  Claim C3: stopping a session that has accumulated audio makes exactly one final request
  carrying all of it, whether or not a request is in flight. With a request in flight the
  call made by \<^verbatim>\<open>onstop\<close> returns at the guard of \<^verbatim>\<open>sendChunkToBackend\<close>, and no final
  request follows. Below, a segment of 1500 bytes arrives and its request is in flight,
  the recorder stops (its last segment of 500 bytes is skipped), the reply arrives and the
  timer fires. The only request of the whole run is the one made before the stop, and the
  run ends with nothing in flight, nothing waiting and no timer pending, so that replies
  and timers bring no request later (lemma \<open>quiescent_run\<close>). The same stop made after the
  reply and the timer does make the final request. The audio is not lost: the complete
  file is always among the payloads sent or waiting (lemma \<open>accumulated_file_dispatched\<close>);
  what is missing is the request that the stop should make.
\<close>

theorem stop_in_flight_no_final_request:
  "payloads (run init [DataAvailable (segment 1500 1), DataAvailable (segment 500 2)])
     = [segment 1500 1]
   \<and> inflight (run init [DataAvailable (segment 1500 1), DataAvailable (segment 500 2)])
     = [(1, segment 1500 1)]
   \<and> createCompleteAudioFile
        (run init [DataAvailable (segment 1500 1), DataAvailable (segment 500 2)])
     = Some (segment 1500 1)
   \<and> payloads (run init [DataAvailable (segment 1500 1), DataAvailable (segment 500 2),
        RecorderStop, TranscribeDone (Reply (Some (str ''one'')) False), TimerFired])
     = [segment 1500 1]
   \<and> chunkQueue (run init [DataAvailable (segment 1500 1), DataAvailable (segment 500 2),
        RecorderStop, TranscribeDone (Reply (Some (str ''one'')) False), TimerFired]) = []
   \<and> inflight (run init [DataAvailable (segment 1500 1), DataAvailable (segment 500 2),
        RecorderStop, TranscribeDone (Reply (Some (str ''one'')) False), TimerFired]) = []
   \<and> timers (run init [DataAvailable (segment 1500 1), DataAvailable (segment 500 2),
        RecorderStop, TranscribeDone (Reply (Some (str ''one'')) False), TimerFired]) = 0
   \<and> payloads (run init [DataAvailable (segment 1500 1),
        TranscribeDone (Reply (Some (str ''one'')) False), TimerFired,
        DataAvailable (segment 500 2), RecorderStop])
     = [segment 1500 1, segment 1500 1]"
  by (simp add: run_simps)

text \<open>
  Claim C10: a call of \<^verbatim>\<open>sendChunkToBackend\<close> made while a request is in flight discards
  its payload. The call leaves the whole state as it was, so the payload is not sent, is
  not put in the queue, and nothing that happens later depends on it. The one call site
  that does not test the flag first is \<^verbatim>\<open>onstop\<close>, which then changes nothing either.
\<close>

theorem send_in_flight_discards:
  assumes "isProcessing s"
  shows "sendChunkToBackend audioBlob s = s
    \<and> run (sendChunkToBackend audioBlob s) es = run s es
    \<and> onstop s = s"
  using assms by (simp add: sendChunkToBackend_def onstop_def split: option.splits)

text \<open>With the first request in flight, a second payload is discarded and never sent.\<close>

theorem send_in_flight_discards_witness:
  "isProcessing (run init [DataAvailable (segment 1500 1)])
   \<and> sendChunkToBackend (segment 1500 2) (run init [DataAvailable (segment 1500 1)])
       = run init [DataAvailable (segment 1500 1)]
   \<and> payloads (run (sendChunkToBackend (segment 1500 2)
                      (run init [DataAvailable (segment 1500 1)]))
        [TranscribeDone Failure, TimerFired]) = [segment 1500 1]"
proof -
  have p: "isProcessing (run init [DataAvailable (segment 1500 1)])"
    by (simp add: run_simps)
  have "payloads (run (run init [DataAvailable (segment 1500 1)])
        [TranscribeDone Failure, TimerFired]) = [segment 1500 1]"
    by (simp add: run_simps)
  with p send_in_flight_discards [OF p, of "segment 1500 2" "[TranscribeDone Failure, TimerFired]"]
  show ?thesis by simp
qed

section \<open>The accumulator\<close>

text \<open>
  Claim C4: within a session each payload is the previous payload followed by exactly the
  bytes of the new segment. Let \<open>prev\<close> be the payload of a state, let any events follow that
  neither add a segment nor clear the accumulation, and let a segment above the threshold
  arrive: the payload is then \<open>prev @ seg\<close>, so \<open>prev\<close> is its prefix and \<open>seg\<close> the rest.
\<close>

theorem payload_extends_previous:
  assumes "createCompleteAudioFile s = Some prev"
    and "list_all (\<lambda>e. keepsAudio e \<and> \<not> addsAudio e) es"
    and "1000 < length seg"
  shows "createCompleteAudioFile (run s (es @ [DataAvailable seg])) = Some (prev @ seg)
    \<and> take (length prev) (prev @ seg) = prev
    \<and> drop (length prev) (prev @ seg) = seg"
proof -
  have "audioChunks (run s es) = audioChunks s"
    using assms(2) by (rule audioChunks_idle_run)
  then have "audioChunks (run s (es @ [DataAvailable seg])) = audioChunks s @ [seg]"
    using assms(3) by (simp add: run_append run_Cons run_Nil audioChunks_ondataavailable)
  moreover have "audioChunks s \<noteq> []" "prev = concat (audioChunks s)"
    using assms(1) by (auto simp: createCompleteAudioFile_def split: if_splits)
  ultimately show ?thesis by (simp add: createCompleteAudioFile_def)
qed

text \<open>
  After a first segment of 1500 bytes, a skipped segment, a failed reply and a timer, a
  segment of 1200 bytes extends the payload.
\<close>

theorem payload_extends_previous_witness:
  "createCompleteAudioFile (run init [DataAvailable (segment 1500 1)]) = Some (segment 1500 1)
   \<and> list_all (\<lambda>e. keepsAudio e \<and> \<not> addsAudio e)
        [DataAvailable (segment 500 9), TranscribeDone Failure, TimerFired]
   \<and> 1000 < length (segment 1200 2)
   \<and> createCompleteAudioFile (run init [DataAvailable (segment 1500 1),
        DataAvailable (segment 500 9), TranscribeDone Failure, TimerFired,
        DataAvailable (segment 1200 2)]) = Some (segment 1500 1 @ segment 1200 2)"
  using payload_extends_previous [of "run init [DataAvailable (segment 1500 1)]"
      "segment 1500 1" "[DataAvailable (segment 500 9), TranscribeDone Failure, TimerFired]"
      "segment 1200 2"]
  by (simp add: run_simps)

text \<open>
  Claim C9: a segment below the threshold is discarded before it reaches the accumulator and
  appears in no payload; a segment above it is appended and is part of every later payload
  of the session. A segment of at most 1000 bytes leaves the state as it was, so every
  later request is what it would have been without the segment. A segment of more than
  1000 bytes is appended to \<^verbatim>\<open>audioChunks\<close>, and after any events that do not clear the
  accumulation the payload still holds its bytes, right after the bytes that were there
  before it.
\<close>

theorem segment_threshold:
  assumes "length small \<le> 1000" and "1000 < length big" and "list_all keepsAudio es"
  shows "ondataavailable small s = s
    \<and> payloads (run (ondataavailable small s) es) = payloads (run s es)
    \<and> audioChunks (ondataavailable big s) = audioChunks s @ [big]
    \<and> (\<exists>post. createCompleteAudioFile (run (ondataavailable big s) es)
            = Some (concat (audioChunks s) @ big @ post))"
proof -
  have small: "ondataavailable small s = s"
    using assms(1) by (simp add: ondataavailable_def)
  have big: "audioChunks (ondataavailable big s) = audioChunks s @ [big]"
    using assms(2) by (simp add: audioChunks_ondataavailable)
  obtain more where "audioChunks (run (ondataavailable big s) es)
      = audioChunks (ondataavailable big s) @ more"
    using audioChunks_grow_run [OF assms(3)] by blast
  with big have "createCompleteAudioFile (run (ondataavailable big s) es)
      = Some (concat (audioChunks s) @ big @ concat more)"
    by (simp add: createCompleteAudioFile_def)
  with small big show ?thesis by simp
qed

text \<open>A segment of 500 bytes is skipped; one of 1500 bytes stays in the payload.\<close>

theorem segment_threshold_witness:
  "length (segment 500 1) \<le> 1000 \<and> 1000 < length (segment 1500 2)
   \<and> list_all keepsAudio [TranscribeDone Failure, DataAvailable (segment 1500 3), RecorderStop]
   \<and> ondataavailable (segment 500 1) init = init
   \<and> (\<exists>post. createCompleteAudioFile (run (ondataavailable (segment 1500 2) init)
          [TranscribeDone Failure, DataAvailable (segment 1500 3), RecorderStop])
            = Some (segment 1500 2 @ post))"
  using segment_threshold [of "segment 500 1" "segment 1500 2"
      "[TranscribeDone Failure, DataAvailable (segment 1500 3), RecorderStop]" init]
  by (simp add: length_segment) (simp add: init_def)

section \<open>Sessions\<close>

text \<open>
  Claim C5, as the code has it. When the request of \<^verbatim>\<open>startNewSession\<close> succeeds, the call
  returns the new identifier, stores it, and clears the transcript, the accumulated
  segments and the chunk counter. The waiting payloads, the in-flight flag, the suspended
  request and the pending timers are left as they are.
\<close>

theorem startNewSession_resets:
  "fst (startNewSessionDone (Some sid) s) = Some sid
   \<and> currentSession (snd (startNewSessionDone (Some sid) s)) = Some sid
   \<and> transcript (snd (startNewSessionDone (Some sid) s)) = []
   \<and> audioChunks (snd (startNewSessionDone (Some sid) s)) = []
   \<and> chunkCounter (snd (startNewSessionDone (Some sid) s)) = 0
   \<and> \<not> sessionStarting (snd (startNewSessionDone (Some sid) s))
   \<and> chunkQueue (snd (startNewSessionDone (Some sid) s)) = chunkQueue s
   \<and> isProcessing (snd (startNewSessionDone (Some sid) s)) = isProcessing s
   \<and> inflight (snd (startNewSessionDone (Some sid) s)) = inflight s
   \<and> timers (snd (startNewSessionDone (Some sid) s)) = timers s"
  by (simp add: startNewSessionDone_def)

text \<open>
  Claim C5 as first stated (the start also clears the waiting payloads and the in-flight
  flag, so nothing of the previous session appears in the new one) fails: with one request
  in flight and one payload waiting, a session start leaves both; the text of the old
  reply then becomes the new transcript, and the old payload is sent in the new session.
\<close>

theorem startNewSession_keeps_dispatch_state:
  "chunkQueue (run init [DataAvailable (segment 1500 1), DataAvailable (segment 1500 2),
        StartSession, StartSessionDone (Some (str ''s2''))]) \<noteq> []
   \<and> isProcessing (run init [DataAvailable (segment 1500 1), DataAvailable (segment 1500 2),
        StartSession, StartSessionDone (Some (str ''s2''))])
   \<and> transcript (run init [DataAvailable (segment 1500 1), DataAvailable (segment 1500 2),
        StartSession, StartSessionDone (Some (str ''s2'')),
        TranscribeDone (Reply (Some (str ''old'')) False), TimerFired]) = str ''old''
   \<and> payloads (run init [DataAvailable (segment 1500 1), DataAvailable (segment 1500 2),
        StartSession, StartSessionDone (Some (str ''s2'')),
        TranscribeDone (Reply (Some (str ''old'')) False), TimerFired])
       = [segment 1500 1, segment 1500 1 @ segment 1500 2]"
  by (simp add: run_simps startNewSession_def startNewSessionDone_def
      blank_def str_def isWhiteSpace_def trim_def joinText_def)

text \<open>
  Claim C7: a second call of \<^verbatim>\<open>startNewSession\<close> made before the first has resolved returns
  at once under the guard and makes no request, so the two calls make one request and
  obtain one identifier. The first call suspends after making its request; the second
  changes nothing and returns the session the component held before; when the reply
  arrives the first call returns the new identifier and stores it.
\<close>

theorem startNewSession_guard:
  assumes "\<not> sessionStarting s"
  shows "fst (startNewSession s) = Awaiting
    \<and> startRequests (snd (startNewSession s)) = startRequests s + 1
    \<and> startNewSession (snd (startNewSession s))
        = (Returned (currentSession s), snd (startNewSession s))
    \<and> fst (startNewSessionDone (Some sid) (snd (startNewSession s))) = Some sid
    \<and> startRequests (run s [StartSession, StartSession, StartSessionDone (Some sid)])
        = startRequests s + 1
    \<and> currentSession (run s [StartSession, StartSession, StartSessionDone (Some sid)])
        = Some sid"
  using assms by (simp add: startNewSession_def startNewSessionDone_def run_Cons run_Nil)

text \<open>From the initial state: one request, and the second call returns no session.\<close>

theorem startNewSession_guard_witness:
  "\<not> sessionStarting init
   \<and> fst (startNewSession init) = Awaiting
   \<and> startNewSession (snd (startNewSession init)) = (Returned None, snd (startNewSession init))
   \<and> startRequests (run init [StartSession, StartSession,
        StartSessionDone (Some (str ''abc''))]) = 1
   \<and> currentSession (run init [StartSession, StartSession,
        StartSessionDone (Some (str ''abc''))]) = Some (str ''abc'')"
  using startNewSession_guard [of init "str ''abc''"] by (simp add: init_def)

section \<open>The transcript and the milestone\<close>

text \<open>
  Claim C8: a reply whose text is empty or only white space leaves the transcript as it
  is; any other text is appended, after exactly one space when the transcript is not
  empty. What is appended is the text without the white space at its ends (the text
  itself when it has none there). From the empty transcript, the texts \<open>''''\<close> and then
  \<open>''hello''\<close> give \<open>''hello''\<close>, and \<open>''hello''\<close> and then \<open>''world''\<close> give \<open>''hello world''\<close>.
\<close>

theorem transcript_join:
  "transcript (applyResult (Reply (Some t) m) s)
     = (if blank t then transcript s
        else if transcript s = [] then trim t
        else transcript s @ [0x20] @ trim t)
   \<and> (if t \<noteq> [] \<and> \<not> isWhiteSpace (hd t) \<and> \<not> isWhiteSpace (last t)
       then trim t = t else True)
   \<and> transcript (applyResult (Reply (Some (str ''hello'')) False)
        (applyResult (Reply (Some []) False) init)) = str ''hello''
   \<and> transcript (applyResult (Reply (Some (str ''world'')) False)
        (applyResult (Reply (Some (str ''hello'')) False) init)) = str ''hello world''"
proof -
  have ev: "trim (str ''hello'') = str ''hello''" "trim (str ''world'') = str ''world''"
    "\<not> blank (str ''hello'')" "\<not> blank (str ''world'')" "blank []"
    by (simp_all add: trim_def blank_def str_def isWhiteSpace_def)
  have "transcript (applyResult (Reply (Some t) m) s)
     = (if blank t then transcript s
        else if transcript s = [] then trim t
        else transcript s @ [0x20] @ trim t)"
    by (simp add: applyResult_alt joinText_def)
  moreover have "transcript (applyResult (Reply (Some (str ''hello'')) False)
        (applyResult (Reply (Some []) False) init)) = str ''hello''"
    by (simp add: applyResult_alt ev joinText_def init_def)
  moreover have "transcript (applyResult (Reply (Some (str ''world'')) False)
        (applyResult (Reply (Some (str ''hello'')) False) init)) = str ''hello world''"
    by (simp add: applyResult_alt ev joinText_def init_def) (simp add: str_def)
  ultimately show ?thesis by (simp add: trim_id)
qed

text \<open>
  Claim C6, as the code has it. The component counts no characters and keeps no record
  that the milestone was reached: the milestone line runs once for every reply that
  carries text other than white space and a truthy \<^verbatim>\<open>milestone\<close> field. For every sequence
  of replies the number of signals is the number of such replies.
\<close>

theorem milestone_per_flagged_reply:
  "milestones (foldl (\<lambda>s r. applyResult r s) s rs)
     = milestones s + length (filter flagged rs)"
proof (induction rs arbitrary: s)
  case Nil
  then show ?case by simp
next
  case (Cons r rs)
  have "milestones (applyResult r s) = milestones s + (if flagged r then 1 else 0)"
    by (simp add: applyResult_alt)
  with Cons.IH [of "applyResult r s"] show ?case by simp
qed

text \<open>
  Claim C6 as first stated (within a session the signal is raised at most once) fails: two
  replies of 5000 letters each, both with the field set, raise it twice, the second time
  with the transcript already past 5000 characters.
\<close>

theorem milestone_fires_twice:
  "\<not> milestones (run init
       [DataAvailable (segment 1500 1), TranscribeDone (Reply (Some longText) True),
        DataAvailable (segment 1500 2), TranscribeDone (Reply (Some longText) True)]) \<le> 1
   \<and> length (transcript (run init
       [DataAvailable (segment 1500 1), TranscribeDone (Reply (Some longText) True)])) = 5000"
  by (simp add: run_simps longText_facts joinText_def) (simp add: longText_def)

end
